theory Spec2Isabelle
  imports Main
begin

section \<open>Values, exceptions and the world outside the SDK\<close>

text \<open>
  Structured values that travel in a log entry and in a reply payload. A Python
  \<^verbatim>\<open>dict\<close> with string keys is an insertion-ordered association list; the
  serialised request body is represented by the value that \<^verbatim>\<open>json.dumps\<close> encodes.
  The values a caller puts in a context or in the data of a call are of this type, so
  \<^verbatim>\<open>json.dumps\<close> never fails on them, and they are immutable.
\<close>

datatype json =
    JNull
  | JBool bool
  | JInt int
  | JStr string
  | JList "json list"
  | JObj "(string \<times> json) list"

type_synonym dict = "(string \<times> json) list"

text \<open>
  Exceptions. \<open>RequestException\<close> stands for any failure of the network layer
  (\<^verbatim>\<open>requests.exceptions.RequestException\<close> and its subclasses), \<open>HTTPError\<close> is
  the subclass raised by \<^verbatim>\<open>raise_for_status\<close>, \<open>OtherException\<close> is any exception that
  is not a \<^verbatim>\<open>RequestException\<close>. \<open>ValueError\<close> is what the specification calls
  InvalidArgument. \<open>DeliveryFailed\<close> is the wrapper named by the specification; no
  function below constructs it, because no statement of the source raises it.
\<close>

datatype exn =
    ValueError string
  | TypeError string
  | OverflowError string
  | RequestException string
  | HTTPError int
  | OtherException string
  | DeliveryFailed exn

fun is_RequestException :: "exn \<Rightarrow> bool" where
  "is_RequestException (RequestException m) = True"
| "is_RequestException (HTTPError s) = True"
| "is_RequestException e = False"

record Response =
  status_code :: int
  json_result :: "exn + json"

text \<open>
  The environment: the outcome of the \<open>k\<close>-th call of \<^verbatim>\<open>session.request\<close> (counted
  from 0 over the whole run), the identifiers and timestamps handed to the \<open>k\<close>-th
  log entry, the text \<^verbatim>\<open>traceback.format_exc()\<close> returns, and the longest delay, in
  milliseconds, that the platform's \<^verbatim>\<open>time.sleep\<close> accepts.
\<close>

record env =
  transport :: "nat \<Rightarrow> exn + Response"
  uuid4 :: "nat \<Rightarrow> string"
  utcnow :: "nat \<Rightarrow> string"
  format_exc :: string
  sleep_limit_ms :: int

type_synonym http_call = "string \<times> string \<times> json option"

datatype debug_line =
    Retrying nat int
  | RequestFailed int exn
  | ErrorSendingLogEntry exn
  | ErrorSendingBatch exn

text \<open>
  The mutable world: a store of dictionary objects (address to contents, with the next
  free address), the calls of \<^verbatim>\<open>HttpClient.send\<close>, the underlying
  \<^verbatim>\<open>session.request\<close> calls, the delays of the backoff steps in milliseconds (the
  source divides by 1000 and passes seconds to \<^verbatim>\<open>time.sleep\<close>), the lines printed in debug mode, and the number
  of log entries created so far.
\<close>

record state =
  dicts :: "nat \<Rightarrow> dict"
  next_dict :: nat
  sends :: "http_call list"
  requests :: "http_call list"
  sleeps :: "int list"
  prints :: "debug_line list"
  created :: nat

section \<open>Configuration\<close>

record NeuralLogConfig =
  server_url :: string
  namespace :: string
  api_key :: "string option"
  async_enabled :: bool
  batch_size :: int
  batch_interval_ms :: int
  max_retries :: int
  retry_backoff_ms :: int
  debug_enabled :: bool
  timeout_ms :: int
  max_connections :: int
  headers :: "(string \<times> string) list"

definition default_config :: NeuralLogConfig where
  "default_config = \<lparr> server_url = ''http://localhost:3030'', namespace = ''default'',
     api_key = None, async_enabled = True, batch_size = 100, batch_interval_ms = 5000,
     max_retries = 3, retry_backoff_ms = 1000, debug_enabled = False, timeout_ms = 30000,
     max_connections = 10, headers = [] \<rparr>"

section \<open>HttpClient\<close>

text \<open>
  The two statements of the handler that wait before a retry,
  \<^verbatim>\<open>backoff = ... / 1000\<close> and \<^verbatim>\<open>time.sleep(backoff)\<close>, on a delay given in
  milliseconds. The delay is recorded. A negative delay makes \<^verbatim>\<open>time.sleep\<close> raise
  \<^verbatim>\<open>ValueError\<close>; a delay above the platform's limit makes it raise
  \<^verbatim>\<open>OverflowError\<close> (beyond the range of a floating-point number the division raises the
  same error one statement earlier). Both leave \<^verbatim>\<open>send\<close> at once, since they are raised
  inside the handler.
\<close>

definition time_sleep :: "env \<Rightarrow> int \<Rightarrow> state \<Rightarrow> (exn + unit) \<times> state" where
  "time_sleep ev ms st =
     (let st' = st\<lparr> sleeps := sleeps st @ [ms] \<rparr>
      in if ms < 0 then (Inl (ValueError ''sleep length must be non-negative''), st')
         else if sleep_limit_ms ev < ms
         then (Inl (OverflowError ''timestamp too large to convert to C _PyTime_t''), st')
         else (Inr (), st'))"

text \<open>
  The body of the \<^verbatim>\<open>try\<close> block of \<^verbatim>\<open>HttpClient.send\<close> on one outcome of
  \<^verbatim>\<open>session.request\<close>: \<^verbatim>\<open>raise_for_status\<close> raises for a status from 400 to 599,
  status 204 gives the empty dictionary, any other response is parsed.
\<close>

definition attempt :: "exn + Response \<Rightarrow> exn + json" where
  "attempt out =
     (case out of
        Inl e \<Rightarrow> Inl e
      | Inr r \<Rightarrow>
          if 400 \<le> status_code r \<and> status_code r < 600 then Inl (HTTPError (status_code r))
          else if status_code r = 204 then Inr (JObj [])
          else json_result r)"

text \<open>
  The \<^verbatim>\<open>while retries <= self.config.max_retries\<close> loop and the statements after it.
  \<open>retries\<close> is the local counter (it starts at 0 and only grows) and
  \<open>last_exception\<close> starts as \<^verbatim>\<open>None\<close>. An exception that is not a
  \<^verbatim>\<open>RequestException\<close> leaves the loop at once; so does an exception of
  \<^verbatim>\<open>time.sleep\<close>, raised inside the handler.
  After the loop \<^verbatim>\<open>raise last_exception\<close> raises \<^verbatim>\<open>TypeError\<close> when it is still
  \<^verbatim>\<open>None\<close>.
\<close>

function send_loop ::
  "NeuralLogConfig \<Rightarrow> env \<Rightarrow> http_call \<Rightarrow> nat \<Rightarrow> exn option \<Rightarrow> state \<Rightarrow> (exn + json) \<times> state"
where
  "send_loop cfg ev rq retries last_exception st =
     (if int retries \<le> max_retries cfg then
        (let st1 = st\<lparr> requests := requests st @ [rq] \<rparr>
         in case attempt (transport ev (length (requests st))) of
              Inr v \<Rightarrow> (Inr v, st1)
            | Inl e \<Rightarrow>
                if is_RequestException e then
                  (if int (Suc retries) \<le> max_retries cfg then
                     (case time_sleep ev (retry_backoff_ms cfg * 2 ^ (Suc retries - 1)) st1 of
                        (Inl err, st2) \<Rightarrow> (Inl err, st2)
                      | (Inr u, st2) \<Rightarrow>
                          send_loop cfg ev rq (Suc retries) (Some e)
                            (if debug_enabled cfg
                             then st2\<lparr> prints := prints st2 @ [Retrying (Suc retries) (max_retries cfg)] \<rparr>
                             else st2))
                   else send_loop cfg ev rq (Suc retries) (Some e) st1)
                else (Inl e, st1))
      else
        (case last_exception of
           None \<Rightarrow> (Inl (TypeError ''exceptions must derive from BaseException''), st)
         | Some e \<Rightarrow>
             (Inl e,
              if debug_enabled cfg
              then st\<lparr> prints := prints st @ [RequestFailed (max_retries cfg) e] \<rparr>
              else st)))"
  by pat_completeness auto
termination
  by (relation "measure (\<lambda>(cfg, ev, rq, retries, last_exception, st). nat (max_retries cfg + 1 - int retries))") auto

definition send ::
  "NeuralLogConfig \<Rightarrow> env \<Rightarrow> string \<Rightarrow> string \<Rightarrow> json option \<Rightarrow> state \<Rightarrow> (exn + json) \<times> state"
where
  "send cfg ev http_method http_url data st =
     send_loop cfg ev (http_method, http_url, data) 0 None
       (st\<lparr> sends := sends st @ [(http_method, http_url, data)] \<rparr>)"

section \<open>Dictionaries\<close>

text \<open>
  \<^verbatim>\<open>d[k] = v\<close> keeps the position of a key that is present and appends a new one;
  \<^verbatim>\<open>d.update(other)\<close> stores the items of \<open>other\<close> from first to last. A dictionary
  is true when it is not empty.
\<close>

fun dict_set :: "'k \<Rightarrow> 'v \<Rightarrow> ('k \<times> 'v) list \<Rightarrow> ('k \<times> 'v) list" where
  "dict_set k v [] = [(k, v)]"
| "dict_set k v (p # d) = (if fst p = k then (k, v) # d else p # dict_set k v d)"

definition dict_update :: "('k \<times> 'v) list \<Rightarrow> ('k \<times> 'v) list \<Rightarrow> ('k \<times> 'v) list" where
  "dict_update d other = fold (\<lambda>(k, v). dict_set k v) other d"

text \<open>Allocation of \<^verbatim>\<open>{}\<close> and of \<^verbatim>\<open>d.copy()\<close> in the store of dictionary objects.\<close>

definition dict_new :: "state \<Rightarrow> nat \<times> state" where
  "dict_new st =
     (next_dict st, st\<lparr> dicts := (dicts st)(next_dict st := []), next_dict := Suc (next_dict st) \<rparr>)"

definition dict_copy :: "nat \<Rightarrow> state \<Rightarrow> nat \<times> state" where
  "dict_copy r st =
     (next_dict st,
      st\<lparr> dicts := (dicts st)(next_dict st := dicts st r), next_dict := Suc (next_dict st) \<rparr>)"

section \<open>Log entries\<close>

datatype LogLevel = DEBUG | INFO | WARNING | ERROR | FATAL

fun LogLevel_value :: "LogLevel \<Rightarrow> string" where
  "LogLevel_value DEBUG = ''debug''"
| "LogLevel_value INFO = ''info''"
| "LogLevel_value WARNING = ''warning''"
| "LogLevel_value ERROR = ''error''"
| "LogLevel_value FATAL = ''fatal''"

text \<open>
  A Python exception as the caller passes it: class name, \<^verbatim>\<open>str(exception)\<close> and
  \<^verbatim>\<open>__cause__\<close>.
\<close>

datatype py_exception = PyException string string "py_exception option"

datatype ExceptionInfo = ExceptionInfo string string string "ExceptionInfo option"

primrec ExceptionInfo_init :: "string \<Rightarrow> py_exception \<Rightarrow> ExceptionInfo" where
  "ExceptionInfo_init trace (PyException ty msg cause) =
     ExceptionInfo ty msg trace (map_option (ExceptionInfo_init trace) cause)"

primrec ExceptionInfo_to_dict :: "ExceptionInfo \<Rightarrow> json" where
  "ExceptionInfo_to_dict (ExceptionInfo ty msg trace inner) =
     JObj ([(''type'', JStr ty), (''message'', JStr msg), (''stackTrace'', JStr trace)] @
           (case map_option ExceptionInfo_to_dict inner of
              None \<Rightarrow> []
            | Some j \<Rightarrow> [(''innerException'', j)]))"

record LogEntry =
  le_id :: string
  le_timestamp :: string
  le_level :: LogLevel
  le_message :: string
  le_data :: dict
  le_exception :: "ExceptionInfo option"

definition LogEntry_init ::
  "env \<Rightarrow> LogLevel \<Rightarrow> string \<Rightarrow> dict option \<Rightarrow> py_exception option \<Rightarrow> state \<Rightarrow> LogEntry \<times> state"
where
  "LogEntry_init ev level message data exception st =
     (\<lparr> le_id = uuid4 ev (created st),
        le_timestamp = utcnow ev (created st),
        le_level = level,
        le_message = message,
        le_data = (case data of None \<Rightarrow> [] | Some d \<Rightarrow> if d \<noteq> [] then d else []),
        le_exception = map_option (ExceptionInfo_init (format_exc ev)) exception \<rparr>,
      st\<lparr> created := Suc (created st) \<rparr>)"

definition to_dict :: "LogEntry \<Rightarrow> json" where
  "to_dict e =
     JObj ([(''id'', JStr (le_id e)), (''timestamp'', JStr (le_timestamp e)),
            (''level'', JStr (LogLevel_value (le_level e))), (''message'', JStr (le_message e)),
            (''data'', JObj (le_data e))] @
           (case le_exception e of
              None \<Rightarrow> []
            | Some x \<Rightarrow> [(''exception'', ExceptionInfo_to_dict x)]))"

section \<open>AILogger\<close>

text \<open>
  The HTTP client keeps the configuration it was built with; its session and default
  headers play no part below. A logger holds the address of its context dictionary
  (\<open>context_ref\<close>, the attribute \<^verbatim>\<open>self.context\<close>), its
  queue of pending entries (oldest first) and the interval of its armed timer, if any.
  Each operation takes the logger and the world and returns them updated; the timer's
  callback is an operation like the others, called by the environment between two calls.
\<close>

record HttpClient =
  hc_config :: NeuralLogConfig

definition HttpClient_init :: "NeuralLogConfig \<Rightarrow> HttpClient" where
  "HttpClient_init cfg = \<lparr> hc_config = cfg \<rparr>"

record AILogger =
  log_name :: string
  config :: NeuralLogConfig
  http_client :: HttpClient
  context_ref :: nat
  batch_queue :: "LogEntry list"
  batch_timer :: "int option"

definition start_batch_timer :: "AILogger \<Rightarrow> AILogger" where
  "start_batch_timer lg = lg\<lparr> batch_timer := Some (batch_interval_ms (config lg)) \<rparr>"

definition AILogger_init ::
  "string \<Rightarrow> NeuralLogConfig \<Rightarrow> HttpClient option \<Rightarrow> state \<Rightarrow> AILogger \<times> state"
where
  "AILogger_init name cfg client st =
     (let (c, st1) = dict_new st;
          lg = \<lparr> log_name = name, config = cfg,
                 http_client = (case client of Some h \<Rightarrow> h | None \<Rightarrow> HttpClient_init cfg),
                 context_ref = c, batch_queue = [], batch_timer = None \<rparr>
      in (if async_enabled cfg \<and> batch_interval_ms cfg > 0 then start_batch_timer lg else lg, st1))"

definition get_log_url :: "AILogger \<Rightarrow> string" where
  "get_log_url lg =
     (if namespace (config lg) \<noteq> [] \<and> namespace (config lg) \<noteq> ''default''
      then server_url (config lg) @ ''/'' @ namespace (config lg) @ ''/logs/'' @ log_name lg
      else server_url (config lg) @ ''/logs/'' @ log_name lg)"

definition get_batch_url :: "AILogger \<Rightarrow> string" where
  "get_batch_url lg =
     (if namespace (config lg) \<noteq> [] \<and> namespace (config lg) \<noteq> ''default''
      then server_url (config lg) @ ''/'' @ namespace (config lg) @ ''/logs/'' @ log_name lg @ ''/batch''
      else server_url (config lg) @ ''/logs/'' @ log_name lg @ ''/batch'')"

text \<open>
  \<^verbatim>\<open>_send_log_entry\<close>: the handler \<^verbatim>\<open>except Exception\<close> catches whatever
  \<^verbatim>\<open>send\<close> raises and prints it in debug mode only.
\<close>

definition send_log_entry :: "env \<Rightarrow> AILogger \<Rightarrow> LogEntry \<Rightarrow> state \<Rightarrow> (exn + unit) \<times> state" where
  "send_log_entry ev lg log_entry st =
     (case send (hc_config (http_client lg)) ev ''POST'' (get_log_url lg) (Some (to_dict log_entry)) st of
        (Inr v, st1) \<Rightarrow> (Inr (), st1)
      | (Inl e, st1) \<Rightarrow>
          (Inr (),
           if debug_enabled (config lg)
           then st1\<lparr> prints := prints st1 @ [ErrorSendingLogEntry e] \<rparr>
           else st1))"

text \<open>
  The loop of \<^verbatim>\<open>_send_batch\<close> that moves entries from the head of the queue to
  \<^verbatim>\<open>log_entries\<close> while the queue is not empty and fewer than \<^verbatim>\<open>batch_size\<close> are taken.
  The result is the entries taken and the queue that remains.
\<close>

fun drain :: "int \<Rightarrow> 'a list \<Rightarrow> 'a list \<Rightarrow> 'a list \<times> 'a list" where
  "drain bs [] log_entries = (log_entries, [])"
| "drain bs (e # q) log_entries =
     (if int (length log_entries) < bs then drain bs q (log_entries @ [e]) else (log_entries, e # q))"

definition send_batch :: "env \<Rightarrow> AILogger \<Rightarrow> state \<Rightarrow> (exn + unit) \<times> AILogger \<times> state" where
  "send_batch ev lg st =
     (if batch_queue lg = [] then (Inr (), lg, st)
      else
        (let (log_entries, rest) = drain (batch_size (config lg)) (batch_queue lg) [];
             lg1 = lg\<lparr> batch_queue := rest \<rparr>
         in if log_entries = [] then (Inr (), lg1, st)
            else
              (case send (hc_config (http_client lg)) ev ''POST'' (get_batch_url lg)
                      (Some (JList (map to_dict log_entries))) st of
                 (Inr v, st1) \<Rightarrow> (Inr (), lg1, st1)
               | (Inl e, st1) \<Rightarrow>
                   (Inr (), lg1,
                    if debug_enabled (config lg)
                    then st1\<lparr> prints := prints st1 @ [ErrorSendingBatch e] \<rparr>
                    else st1))))"

definition enqueue_log_entry ::
  "env \<Rightarrow> AILogger \<Rightarrow> LogEntry \<Rightarrow> state \<Rightarrow> (exn + unit) \<times> AILogger \<times> state"
where
  "enqueue_log_entry ev lg log_entry st =
     (let lg1 = lg\<lparr> batch_queue := batch_queue lg @ [log_entry] \<rparr>
      in if int (length (batch_queue lg1)) \<ge> batch_size (config lg1) then send_batch ev lg1 st
         else (Inr (), lg1, st))"

text \<open>
  The first half of \<^verbatim>\<open>log\<close> after the check of the message: the context is merged
  under the caller's data and the entry is built.
\<close>

definition merged_data :: "AILogger \<Rightarrow> dict option \<Rightarrow> state \<Rightarrow> dict" where
  "merged_data lg data st =
     (let m0 = [];
          m1 = (if dicts st (context_ref lg) \<noteq> [] then dict_update m0 (dicts st (context_ref lg)) else m0)
      in case data of
           None \<Rightarrow> m1
         | Some d \<Rightarrow> if d \<noteq> [] then dict_update m1 d else m1)"

definition log ::
  "env \<Rightarrow> AILogger \<Rightarrow> LogLevel \<Rightarrow> string \<Rightarrow> dict option \<Rightarrow> py_exception option \<Rightarrow> state
   \<Rightarrow> (exn + unit) \<times> AILogger \<times> state"
where
  "log ev lg level message data exception st =
     (if message = [] then (Inl (ValueError ''Message cannot be empty''), lg, st)
      else
        (let (log_entry, st1) = LogEntry_init ev level message (Some (merged_data lg data st)) exception st
         in if async_enabled (config lg) then
              (if batch_size (config lg) > 1 then enqueue_log_entry ev lg log_entry st1
               else (case send_log_entry ev lg log_entry st1 of (r, st2) \<Rightarrow> (r, lg, st2)))
            else (case send_log_entry ev lg log_entry st1 of (r, st2) \<Rightarrow> (r, lg, st2))))"

definition debug ::
  "env \<Rightarrow> AILogger \<Rightarrow> string \<Rightarrow> dict option \<Rightarrow> py_exception option \<Rightarrow> state \<Rightarrow> (exn + unit) \<times> AILogger \<times> state"
where
  "debug ev lg message data exception st = log ev lg DEBUG message data exception st"

definition info ::
  "env \<Rightarrow> AILogger \<Rightarrow> string \<Rightarrow> dict option \<Rightarrow> py_exception option \<Rightarrow> state \<Rightarrow> (exn + unit) \<times> AILogger \<times> state"
where
  "info ev lg message data exception st = log ev lg INFO message data exception st"

definition warning ::
  "env \<Rightarrow> AILogger \<Rightarrow> string \<Rightarrow> dict option \<Rightarrow> py_exception option \<Rightarrow> state \<Rightarrow> (exn + unit) \<times> AILogger \<times> state"
where
  "warning ev lg message data exception st = log ev lg WARNING message data exception st"

definition error ::
  "env \<Rightarrow> AILogger \<Rightarrow> string \<Rightarrow> dict option \<Rightarrow> py_exception option \<Rightarrow> state \<Rightarrow> (exn + unit) \<times> AILogger \<times> state"
where
  "error ev lg message data exception st = log ev lg ERROR message data exception st"

definition fatal ::
  "env \<Rightarrow> AILogger \<Rightarrow> string \<Rightarrow> dict option \<Rightarrow> py_exception option \<Rightarrow> state \<Rightarrow> (exn + unit) \<times> AILogger \<times> state"
where
  "fatal ev lg message data exception st = log ev lg FATAL message data exception st"

definition set_context :: "AILogger \<Rightarrow> nat option \<Rightarrow> state \<Rightarrow> (exn + unit) \<times> AILogger \<times> state" where
  "set_context lg ctx st =
     (case ctx of
        None \<Rightarrow> (Inl (ValueError ''Context cannot be None''), lg, st)
      | Some r \<Rightarrow> (let (c, st1) = dict_copy r st in (Inr (), lg\<lparr> context_ref := c \<rparr>, st1)))"

definition flush :: "env \<Rightarrow> AILogger \<Rightarrow> state \<Rightarrow> (exn + unit) \<times> AILogger \<times> state" where
  "flush ev lg st =
     (if async_enabled (config lg) \<and> batch_size (config lg) > 1 then send_batch ev lg st
      else (Inr (), lg, st))"

definition batch_timer_callback :: "env \<Rightarrow> AILogger \<Rightarrow> state \<Rightarrow> (exn + unit) \<times> AILogger \<times> state" where
  "batch_timer_callback ev lg st =
     (case send_batch ev lg st of (r, lg1, st1) \<Rightarrow> (r, start_batch_timer lg1, st1))"

text \<open>
  An in-place mutation of the dictionary object at address \<open>r\<close> (an item set or deleted,
  \<^verbatim>\<open>clear\<close>, \<^verbatim>\<open>update\<close>): its contents become \<open>d\<close>, every other object is untouched.
\<close>

definition dict_mutate :: "nat \<Rightarrow> dict \<Rightarrow> state \<Rightarrow> state" where
  "dict_mutate r d st = st\<lparr> dicts := (dicts st)(r := d) \<rparr>"

section \<open>NeuralLog, the registry of named loggers\<close>

text \<open>
  The class attributes \<^verbatim>\<open>_config\<close>, \<^verbatim>\<open>_loggers\<close> (log name to logger object) and
  \<^verbatim>\<open>_global_context\<close> (the address of a dictionary), together with the store of logger
  objects the registry has created: \<^verbatim>\<open>_loggers\<close> maps a name to the address of its
  logger, so that two results of \<^verbatim>\<open>get_logger\<close> can be the same object.
\<close>

record NeuralLog =
  cls_config :: NeuralLogConfig
  cls_loggers :: "(string \<times> nat) list"
  cls_global_context :: nat
  logger_objs :: "nat \<Rightarrow> AILogger option"
  next_logger :: nat

definition get_logger :: "NeuralLog \<Rightarrow> string \<Rightarrow> state \<Rightarrow> (exn + nat) \<times> NeuralLog \<times> state" where
  "get_logger cls name st =
     (if name = [] then (Inl (ValueError ''Log name cannot be empty''), cls, st)
      else
        (case map_of (cls_loggers cls) name of
           Some a \<Rightarrow> (Inr a, cls, st)
         | None \<Rightarrow>
             (let (logger, st1) = AILogger_init name (cls_config cls) None st;
                  (r, logger1, st2) =
                    (if dicts st1 (cls_global_context cls) \<noteq> []
                     then set_context logger (Some (cls_global_context cls)) st1
                     else (Inr (), logger, st1))
              in case r of
                   Inl e \<Rightarrow> (Inl e, cls, st2)
                 | Inr u \<Rightarrow>
                     (Inr (next_logger cls),
                      cls\<lparr> cls_loggers := dict_set name (next_logger cls) (cls_loggers cls),
                           logger_objs := (logger_objs cls)(next_logger cls \<mapsto> logger1),
                           next_logger := Suc (next_logger cls) \<rparr>,
                      st2))))"

section \<open>Notions used to state the properties\<close>

text \<open>
  The \<open>k\<close>-th request of the run fails with a transient failure: the \<^verbatim>\<open>try\<close> block
  raises a \<^verbatim>\<open>RequestException\<close>, which the loop of \<^verbatim>\<open>send\<close> catches.
\<close>

definition transient_failure :: "env \<Rightarrow> nat \<Rightarrow> bool" where
  "transient_failure ev k =
     (case attempt (transport ev k) of Inl e \<Rightarrow> is_RequestException e | Inr v \<Rightarrow> False)"

text \<open>
  A delay that \<^verbatim>\<open>time.sleep\<close> accepts, and a configuration all of whose backoff delays
  are accepted: the delays a call of \<^verbatim>\<open>send\<close> can request are
  \<^verbatim>\<open>retry_backoff_ms * 2^k\<close> for \<open>k\<close> below \<^verbatim>\<open>max_retries\<close>.
\<close>

definition sleep_accepts :: "env \<Rightarrow> int \<Rightarrow> bool" where
  "sleep_accepts ev ms = (0 \<le> ms \<and> ms \<le> sleep_limit_ms ev)"

definition backoffs_accepted :: "NeuralLogConfig \<Rightarrow> env \<Rightarrow> bool" where
  "backoffs_accepted cfg ev =
     list_all (\<lambda>k. sleep_accepts ev (retry_backoff_ms cfg * 2 ^ k)) [0..<nat (max_retries cfg)]"

text \<open>
  The call of \<^verbatim>\<open>HttpClient.send\<close> that posts one entry to the single-entry endpoint,
  the call that posts a list of entries to the batch endpoint, and the entry that
  \<^verbatim>\<open>log\<close> builds from its arguments.
\<close>

definition entry_call :: "AILogger \<Rightarrow> LogEntry \<Rightarrow> http_call" where
  "entry_call lg e = (''POST'', get_log_url lg, Some (to_dict e))"

definition batch_call :: "AILogger \<Rightarrow> LogEntry list \<Rightarrow> http_call" where
  "batch_call lg es = (''POST'', get_batch_url lg, Some (JList (map to_dict es)))"

definition built_entry ::
  "env \<Rightarrow> AILogger \<Rightarrow> LogLevel \<Rightarrow> string \<Rightarrow> dict option \<Rightarrow> py_exception option \<Rightarrow> state \<Rightarrow> LogEntry"
where
  "built_entry ev lg level message data exception st =
     fst (LogEntry_init ev level message (Some (merged_data lg data st)) exception st)"

text \<open>A list of items represents a dictionary when no key occurs twice.\<close>

definition wf_dict :: "('k \<times> 'v) list \<Rightarrow> bool" where
  "wf_dict d = distinct (map fst d)"

text \<open>
  Fixed inputs on which the theorems are instantiated: the world before any call (one
  dictionary object, the class attribute \<^verbatim>\<open>_global_context = {}\<close>, at address 0), the
  registry as the class statement leaves it, a network where every request fails to connect,
  one where only the first request fails (both on a platform whose sleeps are limited to
  \<open>2^63\<close> nanoseconds), an entry with a given message, a logger as
  \<^verbatim>\<open>AILogger(name, config)\<close> builds it in the initial world with the world it leaves,
  and such a logger with a given batch size and pending queue.
\<close>

definition initial_state :: state where
  "initial_state = \<lparr> dicts = (\<lambda>a. []), next_dict = 1, sends = [], requests = [], sleeps = [],
     prints = [], created = 0 \<rparr>"

definition initial_NeuralLog :: NeuralLog where
  "initial_NeuralLog = \<lparr> cls_config = default_config, cls_loggers = [], cls_global_context = 0,
     logger_objs = (\<lambda>a. None), next_logger = 0 \<rparr>"

definition env_unreachable :: env where
  "env_unreachable = \<lparr> transport = (\<lambda>k. Inl (RequestException ''connection refused'')),
     uuid4 = (\<lambda>k. ''id''), utcnow = (\<lambda>k. ''now''), format_exc = ''trace'',
     sleep_limit_ms = 9223372036854 \<rparr>"

definition env_second_ok :: env where
  "env_second_ok = \<lparr> transport = (\<lambda>k. if k = 0 then Inl (RequestException ''connection refused'')
        else Inr \<lparr> status_code = 200, json_result = Inr (JObj [(''status'', JStr ''created'')]) \<rparr>),
     uuid4 = (\<lambda>k. ''id''), utcnow = (\<lambda>k. ''now''), format_exc = ''trace'',
     sleep_limit_ms = 9223372036854 \<rparr>"

definition example_entry :: "string \<Rightarrow> LogEntry" where
  "example_entry msg = fst (LogEntry_init env_second_ok INFO msg None None initial_state)"

definition queued_logger :: "int \<Rightarrow> LogEntry list \<Rightarrow> AILogger" where
  "queued_logger n q =
     (fst (AILogger_init ''app'' (default_config\<lparr> batch_size := n \<rparr>) None initial_state))\<lparr> batch_queue := q \<rparr>"

definition new_logger :: "string \<Rightarrow> NeuralLogConfig \<Rightarrow> AILogger" where
  "new_logger name cfg = fst (AILogger_init name cfg None initial_state)"

definition new_logger_state :: "string \<Rightarrow> NeuralLogConfig \<Rightarrow> state" where
  "new_logger_state name cfg = snd (AILogger_init name cfg None initial_state)"

section \<open>The retry loop of HttpClient.send\<close>

text \<open>The defining equation of the loop is unfolded one iteration at a time.\<close>

declare send_loop.simps [simp del]

lemma send_loop_exhausted:
  "\<not> int r \<le> max_retries cfg \<Longrightarrow>
   send_loop cfg ev rq r (Some e) st =
     (Inl e, if debug_enabled cfg then st\<lparr> prints := prints st @ [RequestFailed (max_retries cfg) e] \<rparr> else st)"
  by (subst send_loop.simps) simp

lemma send_loop_retry:
  assumes "int (Suc r) \<le> max_retries cfg" "sleep_accepts ev (retry_backoff_ms cfg * 2 ^ r)"
    and "attempt (transport ev (length (requests st))) = Inl e" "is_RequestException e"
  shows "send_loop cfg ev rq r l st =
     send_loop cfg ev rq (Suc r) (Some e)
       (if debug_enabled cfg
        then st\<lparr> requests := requests st @ [rq], sleeps := sleeps st @ [retry_backoff_ms cfg * 2 ^ r],
                 prints := prints st @ [Retrying (Suc r) (max_retries cfg)] \<rparr>
        else st\<lparr> requests := requests st @ [rq], sleeps := sleeps st @ [retry_backoff_ms cfg * 2 ^ r] \<rparr>)"
proof -
  have "\<not> retry_backoff_ms cfg * 2 ^ r < 0" "\<not> sleep_limit_ms ev < retry_backoff_ms cfg * 2 ^ r"
    using assms(2) by (simp_all add: sleep_accepts_def not_less)
  with assms show ?thesis
    by (subst send_loop.simps) (simp add: time_sleep_def Let_def)
qed

lemma send_loop_last:
  assumes "int r \<le> max_retries cfg" "\<not> int (Suc r) \<le> max_retries cfg"
    and "attempt (transport ev (length (requests st))) = Inl e" "is_RequestException e"
  shows "send_loop cfg ev rq r l st =
     (Inl e, if debug_enabled cfg
             then st\<lparr> requests := requests st @ [rq], prints := prints st @ [RequestFailed (max_retries cfg) e] \<rparr>
             else st\<lparr> requests := requests st @ [rq] \<rparr>)"
  using assms by (subst send_loop.simps) (simp add: Let_def send_loop_exhausted)


lemma send_loop_all_fail:
  assumes "\<forall>k. r \<le> k \<and> k < nat (max_retries cfg) \<longrightarrow> sleep_accepts ev (retry_backoff_ms cfg * 2 ^ k)"
    and "d = nat (max_retries cfg) - r"
    and "int r \<le> max_retries cfg"
    and "\<forall>i. int (r + i) \<le> max_retries cfg \<longrightarrow> transient_failure ev (length (requests st) + i)"
  shows "\<exists>st'. send_loop cfg ev rq r l st = (attempt (transport ev (length (requests st) + d)), st')
           \<and> requests st' = requests st @ replicate (Suc d) rq
           \<and> sleeps st' = sleeps st @ map (\<lambda>k. retry_backoff_ms cfg * 2 ^ k) [r..<r + d]
           \<and> sends st' = sends st"
  using assms
proof (induction d arbitrary: r l st)
  case 0
  from "0.prems"(4)[rule_format, of 0] "0.prems"(3)
  obtain e where e: "attempt (transport ev (length (requests st))) = Inl e" "is_RequestException e"
    by (auto simp: transient_failure_def split: sum.splits)
  have "\<not> int (Suc r) \<le> max_retries cfg" using "0.prems"(2,3) by linarith
  from send_loop_last[OF "0.prems"(3) this e] e show ?case by auto
next
  case (Suc d)
  from Suc.prems(4)[rule_format, of 0] Suc.prems(3)
  obtain e where e: "attempt (transport ev (length (requests st))) = Inl e" "is_RequestException e"
    by (auto simp: transient_failure_def split: sum.splits)
  have le: "int (Suc r) \<le> max_retries cfg" using Suc.prems(2) by linarith
  let ?st1 = "(if debug_enabled cfg
        then st\<lparr> requests := requests st @ [rq], sleeps := sleeps st @ [retry_backoff_ms cfg * 2 ^ r],
                 prints := prints st @ [Retrying (Suc r) (max_retries cfg)] \<rparr>
        else st\<lparr> requests := requests st @ [rq], sleeps := sleeps st @ [retry_backoff_ms cfg * 2 ^ r] \<rparr>)"
  have "r < nat (max_retries cfg)" using Suc.prems(2) by linarith
  with Suc.prems(1) have acc: "sleep_accepts ev (retry_backoff_ms cfg * 2 ^ r)" by simp
  have accs: "\<forall>k. Suc r \<le> k \<and> k < nat (max_retries cfg) \<longrightarrow> sleep_accepts ev (retry_backoff_ms cfg * 2 ^ k)"
    using Suc.prems(1) by simp
  have step: "send_loop cfg ev rq r l st = send_loop cfg ev rq (Suc r) (Some e) ?st1"
    by (rule send_loop_retry[OF le acc e])
  have len: "length (requests ?st1) = Suc (length (requests st))" by simp
  have d: "d = nat (max_retries cfg) - Suc r" using Suc.prems(2) by linarith
  have fails: "\<forall>i. int (Suc r + i) \<le> max_retries cfg \<longrightarrow> transient_failure ev (length (requests ?st1) + i)"
  proof (intro allI impI)
    fix i assume "int (Suc r + i) \<le> max_retries cfg"
    then have "transient_failure ev (length (requests st) + Suc i)"
      using Suc.prems(4)[rule_format, of "Suc i"] by simp
    then show "transient_failure ev (length (requests ?st1) + i)" by (simp only: len) simp
  qed
  from Suc.IH[OF accs d le fails, of "Some e"]
  obtain st' where st': "send_loop cfg ev rq (Suc r) (Some e) ?st1 = (attempt (transport ev (length (requests ?st1) + d)), st')"
    "requests st' = requests ?st1 @ replicate (Suc d) rq"
    "sleeps st' = sleeps ?st1 @ map (\<lambda>k. retry_backoff_ms cfg * 2 ^ k) [Suc r..<Suc r + d]"
    "sends st' = sends ?st1" by blast
  have "[r..<r + Suc d] = r # [Suc r..<Suc r + d]" by (simp add: upt_rec)
  with step st' show ?case by (auto simp: replicate_append_same)
qed

lemma send_loop_mono:
  "send_loop cfg ev rq r l st = (res, st') \<Longrightarrow>
     (\<exists>ys. sleeps st' = sleeps st @ ys) \<and> (\<exists>zs. requests st' = requests st @ zs) \<and> sends st' = sends st
     \<and> dicts st' = dicts st \<and> next_dict st' = next_dict st \<and> created st' = created st"
proof (induction "nat (max_retries cfg + 1 - int r)" arbitrary: r l st)
  case 0
  then have "\<not> int r \<le> max_retries cfg" by linarith
  with "0.prems" show ?case
    by (subst (asm) send_loop.simps) (auto split: option.splits if_splits)
next
  case (Suc d)
  then have le: "int r \<le> max_retries cfg" by linarith
  have d: "d = nat (max_retries cfg + 1 - int (Suc r))" using Suc.hyps(2) by linarith
  note IH = Suc.hyps(1)[OF d]
  from Suc.prems le show ?case
    apply (subst (asm) send_loop.simps)
    apply (simp add: Let_def time_sleep_def split: sum.splits if_splits)
         apply (auto dest!: IH)
    done
qed

lemma send_loop_backoff:
  assumes "send_loop cfg ev rq r l st = (res, st')"
    and "length (requests st) + Suc j \<le> length (requests st')"
    and "transient_failure ev (length (requests st) + j)"
    and "int (r + Suc j) \<le> max_retries cfg"
  shows "length (sleeps st) + Suc j \<le> length (sleeps st') \<and>
         sleeps st' ! (length (sleeps st) + j) = retry_backoff_ms cfg * 2 ^ (r + j)"
  using assms
proof (induction j arbitrary: r l st)
  case 0
  have le: "int r \<le> max_retries cfg" "int (Suc r) \<le> max_retries cfg" using "0.prems"(4) by simp_all
  from "0.prems"(3) obtain e where e: "attempt (transport ev (length (requests st))) = Inl e" "is_RequestException e"
    by (auto simp: transient_failure_def split: sum.splits)
  show ?case
  proof (cases "sleep_accepts ev (retry_backoff_ms cfg * 2 ^ r)")
    case False
    with "0.prems"(1) le e show ?thesis
      by (subst (asm) send_loop.simps)
         (auto simp: Let_def time_sleep_def sleep_accepts_def split: if_splits)
  next
    case True
    with "0.prems"(1) le e obtain st1 where
      st1: "send_loop cfg ev rq (Suc r) (Some e) st1 = (res, st')"
        "sleeps st1 = sleeps st @ [retry_backoff_ms cfg * 2 ^ r]"
      by (subst (asm) send_loop.simps)
         (auto simp: Let_def time_sleep_def sleep_accepts_def split: if_splits)
    from send_loop_mono[OF st1(1)] obtain ys where "sleeps st' = sleeps st1 @ ys" by blast
    with st1(2) show ?thesis by (simp add: nth_append)
  qed
next
  case (Suc j)
  have le: "int r \<le> max_retries cfg" "int (Suc r) \<le> max_retries cfg" using Suc.prems(4) by simp_all
  show ?case
  proof (cases "attempt (transport ev (length (requests st)))")
    case (Inr v)
    with Suc.prems(1,2) le show ?thesis
      by (subst (asm) send_loop.simps) (auto simp: Let_def)
  next
    case (Inl e)
    show ?thesis
    proof (cases "is_RequestException e \<and> sleep_accepts ev (retry_backoff_ms cfg * 2 ^ r)")
      case False
      with Suc.prems(1,2) le Inl show ?thesis
        by (subst (asm) send_loop.simps)
           (auto simp: Let_def time_sleep_def sleep_accepts_def split: if_splits)
    next
      case True
      with Suc.prems(1) le Inl obtain st1 where
        st1: "send_loop cfg ev rq (Suc r) (Some e) st1 = (res, st')"
          "sleeps st1 = sleeps st @ [retry_backoff_ms cfg * 2 ^ r]"
          "requests st1 = requests st @ [rq]"
        by (subst (asm) send_loop.simps)
           (auto simp: Let_def time_sleep_def sleep_accepts_def split: if_splits)
      have a: "length (requests st1) + Suc j \<le> length (requests st')" using Suc.prems(2) st1(3) by simp
      have b: "transient_failure ev (length (requests st1) + j)" using Suc.prems(3) st1(3) by simp
      have c: "int (Suc r + Suc j) \<le> max_retries cfg" using Suc.prems(4) by simp
      from Suc.IH[OF st1(1) a b c] st1(2) show ?thesis by simp
    qed
  qed
qed

section \<open>HttpClient.send: number of attempts and the failure raised\<close>

lemma transient_failureD:
  "transient_failure ev k \<Longrightarrow> \<exists>e. attempt (transport ev k) = Inl e \<and> is_RequestException e"
  by (auto simp: transient_failure_def split: sum.splits)

lemma backoffs_acceptedD:
  "backoffs_accepted cfg ev \<Longrightarrow> k < nat (max_retries cfg) \<Longrightarrow>
     sleep_accepts ev (retry_backoff_ms cfg * 2 ^ k)"
  by (simp add: backoffs_accepted_def list_all_iff)

lemma send_all_fail:
  assumes "0 \<le> max_retries cfg" "backoffs_accepted cfg ev"
    and "\<forall>i \<le> nat (max_retries cfg). transient_failure ev (length (requests st) + i)"
  shows "\<exists>e st'. send cfg ev http_method http_url data st = (Inl e, st')
           \<and> attempt (transport ev (length (requests st) + nat (max_retries cfg))) = Inl e
           \<and> is_RequestException e
           \<and> requests st' = requests st @ replicate (nat (max_retries cfg) + 1) (http_method, http_url, data)
           \<and> sleeps st' = sleeps st @ map (\<lambda>k. retry_backoff_ms cfg * 2 ^ k) [0..<nat (max_retries cfg)]"
proof -
  let ?st0 = "st\<lparr> sends := sends st @ [(http_method, http_url, data)] \<rparr>"
  have fails: "\<forall>i. int (0 + i) \<le> max_retries cfg \<longrightarrow> transient_failure ev (length (requests ?st0) + i)"
    using assms(3) by simp
  have le: "int 0 \<le> max_retries cfg" using assms(1) by simp
  have accs: "\<forall>k. 0 \<le> k \<and> k < nat (max_retries cfg) \<longrightarrow> sleep_accepts ev (retry_backoff_ms cfg * 2 ^ k)"
    using backoffs_acceptedD[OF assms(2)] by simp
  from send_loop_all_fail[OF accs _ le fails, of "nat (max_retries cfg) - 0" "(http_method, http_url, data)" None]
  obtain st' where st': "send_loop cfg ev (http_method, http_url, data) 0 None ?st0 =
        (attempt (transport ev (length (requests ?st0) + (nat (max_retries cfg) - 0))), st')"
      "requests st' = requests ?st0 @ replicate (Suc (nat (max_retries cfg) - 0)) (http_method, http_url, data)"
      "sleeps st' = sleeps ?st0 @ map (\<lambda>k. retry_backoff_ms cfg * 2 ^ k) [0..<0 + (nat (max_retries cfg) - 0)]"
    by blast
  from assms(3) have "transient_failure ev (length (requests st) + nat (max_retries cfg))" by simp
  from transient_failureD[OF this] obtain e where
    e: "attempt (transport ev (length (requests st) + nat (max_retries cfg))) = Inl e" "is_RequestException e"
    by blast
  with st' show ?thesis by (simp add: send_def)
qed


lemma default_backoffs_accepted:
  "backoffs_accepted default_config env_unreachable" "backoffs_accepted default_config env_second_ok"
  by (simp_all add: backoffs_accepted_def sleep_accepts_def default_config_def env_unreachable_def
        env_second_ok_def upt_rec)

text \<open>
  A delay above the platform's limit ends the call at the first failure: with
  \<^verbatim>\<open>max_retries = 1\<close> and a backoff of \<open>10^13\<close> milliseconds on a network where every
  request fails, one request is issued and the \<^verbatim>\<open>OverflowError\<close> of the sleep is raised.
\<close>

lemma send_sleep_overflow_example:
  "\<not> backoffs_accepted (default_config\<lparr> max_retries := 1, retry_backoff_ms := 10000000000000 \<rparr>) env_unreachable
   \<and> requests (snd (send (default_config\<lparr> max_retries := 1, retry_backoff_ms := 10000000000000 \<rparr>)
         env_unreachable ''POST'' ''http://h/logs/x'' None initial_state)) = [(''POST'', ''http://h/logs/x'', None)]
   \<and> fst (send (default_config\<lparr> max_retries := 1, retry_backoff_ms := 10000000000000 \<rparr>)
         env_unreachable ''POST'' ''http://h/logs/x'' None initial_state) =
       Inl (OverflowError ''timestamp too large to convert to C _PyTime_t'')"
  by (simp add: backoffs_accepted_def sleep_accepts_def default_config_def env_unreachable_def
        initial_state_def attempt_def send_def send_loop.simps time_sleep_def upt_rec)




lemma is_RequestException_not_DeliveryFailed:
  "is_RequestException e \<Longrightarrow> e \<noteq> DeliveryFailed x"
  by (cases e) simp_all

text \<open>
  Claim C6. In a call of \<^verbatim>\<open>send\<close>, let attempt \<open>n\<close> (counted from 1) be issued and
  fail with a transient failure while retries remain (\<open>n \<le> max_retries\<close>). Then the
  call has reached its \<open>n\<close>-th backoff, the one that precedes attempt \<open>n + 1\<close>, and
  the delay of that backoff is \<^verbatim>\<open>retry_backoff_ms * 2^(n-1)\<close> milliseconds: the base
  backoff after the first failure, twice the base after the second, and so on.
\<close>

theorem send_backoff_delay:
  assumes "send cfg ev http_method http_url data st = (res, st')"
    and "1 \<le> n"
    and "length (requests st) + n \<le> length (requests st')"
    and "transient_failure ev (length (requests st) + n - 1)"
    and "int n \<le> max_retries cfg"
  shows "length (sleeps st) + n \<le> length (sleeps st') \<and>
         sleeps st' ! (length (sleeps st) + n - 1) = retry_backoff_ms cfg * 2 ^ (n - 1)"
proof -
  let ?st0 = "st\<lparr> sends := sends st @ [(http_method, http_url, data)] \<rparr>"
  from assms(2) obtain j where n: "n = Suc j" by (cases n) auto
  have run: "send_loop cfg ev (http_method, http_url, data) 0 None ?st0 = (res, st')"
    using assms(1) by (simp add: send_def)
  have issued: "length (requests ?st0) + Suc j \<le> length (requests st')"
    using assms(3) n by simp
  have failed: "transient_failure ev (length (requests ?st0) + j)"
    using assms(4) n by simp
  have remaining: "int (0 + Suc j) \<le> max_retries cfg"
    using assms(5) n by simp
  from send_loop_backoff[OF run issued failed remaining] n show ?thesis by simp
qed

theorem send_backoff_delay_witness:
  "(1::nat) \<le> 2
   \<and> length (requests initial_state) + 2 \<le>
       length (requests (snd (send default_config env_unreachable ''POST'' ''http://h/logs/x'' None initial_state)))
   \<and> transient_failure env_unreachable (length (requests initial_state) + 2 - 1)
   \<and> int 2 \<le> max_retries default_config
   \<and> retry_backoff_ms default_config = 1000
   \<and> sleeps (snd (send default_config env_unreachable ''POST'' ''http://h/logs/x'' None initial_state)) ! 1 = 2000
   \<and> sleeps (snd (send default_config env_unreachable ''POST'' ''http://h/logs/x'' None initial_state)) =
        [1000, 2000, 4000]"
  using send_backoff_delay[where cfg = default_config and ev = env_unreachable and st = initial_state
       and http_method = "''POST''" and http_url = "''http://h/logs/x''" and data = None and n = 2
       and res = "fst (send default_config env_unreachable ''POST'' ''http://h/logs/x'' None initial_state)"
       and st' = "snd (send default_config env_unreachable ''POST'' ''http://h/logs/x'' None initial_state)"]
  by (simp add: default_config_def env_unreachable_def initial_state_def transient_failure_def
        attempt_def send_def send_loop.simps time_sleep_def)

text \<open>
  Claim C7, as amended. When \<^verbatim>\<open>max_retries\<close> is not negative, every backoff delay of
  the call is accepted by \<^verbatim>\<open>time.sleep\<close> (none negative, none above the platform's limit
  on a sleep) and all \<^verbatim>\<open>max_retries + 1\<close> attempts fail with a transient failure,
  \<^verbatim>\<open>send\<close> raises the failure of the last attempt itself, a
  \<^verbatim>\<open>RequestException\<close>; it is not wrapped in a \<open>DeliveryFailed\<close> error.
\<close>

theorem send_raises_last_failure:
  assumes "0 \<le> max_retries cfg" and "backoffs_accepted cfg ev"
    and "\<forall>i \<le> nat (max_retries cfg). transient_failure ev (length (requests st) + i)"
  shows "\<exists>e st'. send cfg ev http_method http_url data st = (Inl e, st')
           \<and> attempt (transport ev (length (requests st) + nat (max_retries cfg))) = Inl e
           \<and> is_RequestException e \<and> (\<forall>x. e \<noteq> DeliveryFailed x)"
proof -
  from send_all_fail[OF assms, of http_method http_url data]
  obtain e st' where r: "send cfg ev http_method http_url data st = (Inl e, st')"
      "attempt (transport ev (length (requests st) + nat (max_retries cfg))) = Inl e"
      "is_RequestException e"
    by blast
  from r(3) have "\<forall>x. e \<noteq> DeliveryFailed x"
    by (simp add: is_RequestException_not_DeliveryFailed)
  with r show ?thesis by blast
qed

theorem send_raises_last_failure_witness:
  "0 \<le> max_retries default_config \<and> backoffs_accepted default_config env_unreachable
   \<and> nat (max_retries default_config) = 3
   \<and> transient_failure env_unreachable (length (requests initial_state) + 0)
   \<and> transient_failure env_unreachable (length (requests initial_state) + 1)
   \<and> transient_failure env_unreachable (length (requests initial_state) + 2)
   \<and> transient_failure env_unreachable (length (requests initial_state) + 3)
   \<and> fst (send default_config env_unreachable ''POST'' ''http://h/logs/x/batch'' None initial_state) =
        attempt (transport env_unreachable 3)
   \<and> attempt (transport env_unreachable 3) = Inl (RequestException ''connection refused'')"
  using send_raises_last_failure[OF _ default_backoffs_accepted(1), where st = initial_state
       and http_method = "''POST''" and http_url = "''http://h/logs/x/batch''" and data = None]
    default_backoffs_accepted(1)
  by (auto simp: default_config_def env_unreachable_def initial_state_def transient_failure_def
        attempt_def)

text \<open>
  The claim as stated fails: with the default configuration on a network where every
  request fails to connect, the error raised by \<^verbatim>\<open>send\<close> is the
  \<^verbatim>\<open>RequestException\<close> of the last attempt, not a \<open>DeliveryFailed\<close> around it.
\<close>

theorem send_delivery_failed_counterexample:
  "fst (send default_config env_unreachable ''POST'' ''http://h/logs/x'' None initial_state) =
     Inl (RequestException ''connection refused'')
   \<and> fst (send default_config env_unreachable ''POST'' ''http://h/logs/x'' None initial_state) \<noteq>
     Inl (DeliveryFailed (RequestException ''connection refused''))"
  by (simp add: default_config_def env_unreachable_def initial_state_def
        attempt_def send_def send_loop.simps time_sleep_def)

section \<open>The batcher: flush and enqueue\<close>

lemma send_effect:
  assumes "send cfg ev http_method http_url data st = (res, st')"
  shows "sends st' = sends st @ [(http_method, http_url, data)] \<and> dicts st' = dicts st
         \<and> next_dict st' = next_dict st \<and> created st' = created st"
  using send_loop_mono[OF assms[unfolded send_def]] by simp

lemma send_log_entry_effect:
  "\<exists>st'. send_log_entry ev lg e st = (Inr (), st') \<and> sends st' = sends st @ [entry_call lg e]
         \<and> dicts st' = dicts st \<and> next_dict st' = next_dict st \<and> created st' = created st"
proof -
  obtain res st1 where r: "send (hc_config (http_client lg)) ev ''POST'' (get_log_url lg) (Some (to_dict e)) st = (res, st1)"
    by (cases "send (hc_config (http_client lg)) ev ''POST'' (get_log_url lg) (Some (to_dict e)) st")
  from send_effect[OF r] r show ?thesis
    by (cases res) (simp_all add: send_log_entry_def entry_call_def)
qed

lemma drain_take_drop:
  "drain bs q acc = (acc @ take (nat bs - length acc) q, drop (nat bs - length acc) q)"
proof (induction q arbitrary: acc)
  case Nil
  show ?case by simp
next
  case (Cons e q)
  show ?case
  proof (cases "int (length acc) < bs")
    case True
    then have "nat bs - length acc = Suc (nat bs - length (acc @ [e]))" by simp
    with True Cons.IH[of "acc @ [e]"] show ?thesis by simp
  next
    case False
    then have "nat bs - length acc = 0" by linarith
    with False show ?thesis by simp
  qed
qed

lemma send_batch_empty: "batch_queue lg = [] \<Longrightarrow> send_batch ev lg st = (Inr (), lg, st)"
  by (simp add: send_batch_def)

lemma send_batch_effect:
  assumes "batch_queue lg \<noteq> []" and "0 < batch_size (config lg)"
  shows "\<exists>st'. send_batch ev lg st =
             (Inr (), lg\<lparr> batch_queue := drop (nat (batch_size (config lg))) (batch_queue lg) \<rparr>, st')
           \<and> sends st' = sends st @ [batch_call lg (take (nat (batch_size (config lg))) (batch_queue lg))]
           \<and> dicts st' = dicts st \<and> next_dict st' = next_dict st \<and> created st' = created st"
proof -
  let ?es = "take (nat (batch_size (config lg))) (batch_queue lg)"
  have ne: "?es \<noteq> []" using assms by (cases "batch_queue lg") (auto simp: take_Cons')
  obtain res st1 where r: "send (hc_config (http_client lg)) ev ''POST'' (get_batch_url lg)
       (Some (JList (map to_dict ?es))) st = (res, st1)"
    by (cases "send (hc_config (http_client lg)) ev ''POST'' (get_batch_url lg) (Some (JList (map to_dict ?es))) st")
  from send_effect[OF r] r ne assms(1) show ?thesis
    by (cases res) (simp_all add: send_batch_def drain_take_drop batch_call_def)
qed

lemmas fixture_defs = initial_state_def default_config_def env_unreachable_def env_second_ok_def
  example_entry_def queued_logger_def new_logger_def new_logger_state_def AILogger_init_def
  HttpClient_init_def start_batch_timer_def dict_new_def LogEntry_init_def get_log_url_def
  get_batch_url_def entry_call_def batch_call_def

text \<open>
  Claim C3. \<^verbatim>\<open>_send_batch\<close>, the flush of the batcher, changes nothing when the queue
  is empty. Otherwise, for a positive \<^verbatim>\<open>batch_size\<close> (entries are only queued when it
  exceeds 1), it removes the first \<open>min(pending, batch_size)\<close> entries from the queue and
  hands exactly those, in their order of arrival, to \<^verbatim>\<open>HttpClient.send\<close> as one POST
  to the batch endpoint, also when they are fewer than \<^verbatim>\<open>batch_size\<close>. The public
  \<^verbatim>\<open>flush\<close> is this operation when batching is active.
\<close>

theorem send_batch_flushes_oldest:
  "(batch_queue lg = [] \<longrightarrow> send_batch ev lg st = (Inr (), lg, st))
   \<and> (batch_queue lg \<noteq> [] \<and> 0 < batch_size (config lg) \<longrightarrow>
        (\<exists>st'. send_batch ev lg st =
             (Inr (), lg\<lparr> batch_queue := drop (nat (batch_size (config lg))) (batch_queue lg) \<rparr>, st')
           \<and> sends st' = sends st @ [batch_call lg (take (nat (batch_size (config lg))) (batch_queue lg))]
           \<and> length (take (nat (batch_size (config lg))) (batch_queue lg)) =
               min (length (batch_queue lg)) (nat (batch_size (config lg)))))
   \<and> (async_enabled (config lg) \<and> 1 < batch_size (config lg) \<longrightarrow> flush ev lg st = send_batch ev lg st)"
proof (intro conjI impI)
  assume "batch_queue lg = []"
  then show "send_batch ev lg st = (Inr (), lg, st)" by (rule send_batch_empty)
next
  assume a: "batch_queue lg \<noteq> [] \<and> 0 < batch_size (config lg)"
  from send_batch_effect[OF conjunct1[OF a] conjunct2[OF a], of ev st]
  show "\<exists>st'. send_batch ev lg st =
             (Inr (), lg\<lparr> batch_queue := drop (nat (batch_size (config lg))) (batch_queue lg) \<rparr>, st')
           \<and> sends st' = sends st @ [batch_call lg (take (nat (batch_size (config lg))) (batch_queue lg))]
           \<and> length (take (nat (batch_size (config lg))) (batch_queue lg)) =
               min (length (batch_queue lg)) (nat (batch_size (config lg)))"
    by auto
next
  assume "async_enabled (config lg) \<and> 1 < batch_size (config lg)"
  then show "flush ev lg st = send_batch ev lg st" by (simp add: flush_def)
qed

theorem send_batch_flushes_oldest_witness:
  "batch_queue (queued_logger 3 [example_entry ''Message 1'', example_entry ''Message 2'']) \<noteq> []
   \<and> 0 < batch_size (config (queued_logger 3 [example_entry ''Message 1'', example_entry ''Message 2'']))
   \<and> fst (send_batch env_unreachable
         (queued_logger 3 [example_entry ''Message 1'', example_entry ''Message 2'']) initial_state) = Inr ()
   \<and> batch_queue (fst (snd (send_batch env_unreachable
         (queued_logger 3 [example_entry ''Message 1'', example_entry ''Message 2'']) initial_state))) = []
   \<and> sends (snd (snd (send_batch env_unreachable
         (queued_logger 3 [example_entry ''Message 1'', example_entry ''Message 2'']) initial_state))) =
       [(''POST'', ''http://localhost:3030/logs/app/batch'',
         Some (JList [to_dict (example_entry ''Message 1''), to_dict (example_entry ''Message 2'')]))]
   \<and> send_batch env_unreachable (queued_logger 3 []) initial_state =
       (Inr (), queued_logger 3 [], initial_state)"
  using send_batch_flushes_oldest[where ev = env_unreachable and st = initial_state
      and lg = "queued_logger 3 [example_entry ''Message 1'', example_entry ''Message 2'']"]
    send_batch_flushes_oldest[where ev = env_unreachable and st = initial_state
      and lg = "queued_logger 3 []"]
  by (auto simp: fixture_defs)

lemma batch_call_queue [simp]: "batch_call (lg\<lparr> batch_queue := q \<rparr>) es = batch_call lg es"
  by (simp add: batch_call_def get_batch_url_def)

lemma enqueue_below:
  assumes "int (length (batch_queue lg)) + 1 < batch_size (config lg)"
  shows "enqueue_log_entry ev lg e st = (Inr (), lg\<lparr> batch_queue := batch_queue lg @ [e] \<rparr>, st)"
  using assms by (simp add: enqueue_log_entry_def Let_def)

lemma enqueue_reaches:
  assumes "0 < batch_size (config lg)"
    and "batch_size (config lg) \<le> int (length (batch_queue lg)) + 1"
  shows "enqueue_log_entry ev lg e st = send_batch ev (lg\<lparr> batch_queue := batch_queue lg @ [e] \<rparr>) st
       \<and> (\<exists>st'. enqueue_log_entry ev lg e st =
             (Inr (), lg\<lparr> batch_queue := drop (nat (batch_size (config lg))) (batch_queue lg @ [e]) \<rparr>, st')
           \<and> sends st' = sends st @ [batch_call lg (take (nat (batch_size (config lg))) (batch_queue lg @ [e]))]
           \<and> dicts st' = dicts st \<and> next_dict st' = next_dict st \<and> created st' = created st)"
proof -
  let ?lg1 = "lg\<lparr> batch_queue := batch_queue lg @ [e] \<rparr>"
  have eq: "enqueue_log_entry ev lg e st = send_batch ev ?lg1 st"
    using assms(2) by (simp add: enqueue_log_entry_def Let_def)
  have ne: "batch_queue ?lg1 \<noteq> []" by simp
  have pos: "0 < batch_size (config ?lg1)" using assms(1) by simp
  from send_batch_effect[OF ne pos, of ev st] eq show ?thesis
    by (simp del: take_append drop_append)
qed

text \<open>
  Claim C4. For a positive \<^verbatim>\<open>batch_size\<close>, an enqueue after which the queue holds at
  least \<^verbatim>\<open>batch_size\<close> entries runs the flush at once, which sends one batch; an enqueue
  that leaves the queue below \<^verbatim>\<open>batch_size\<close> only appends the entry and sends nothing.
  So with \<^verbatim>\<open>batch_size = 2\<close> and an empty queue, the first enqueue sends nothing and the
  second one sends both entries as the single batch.
\<close>

theorem enqueue_flushes_at_batch_size:
  assumes "0 < batch_size (config lg)"
  shows "(batch_size (config lg) \<le> int (length (batch_queue lg)) + 1 \<longrightarrow>
            enqueue_log_entry ev lg e st = send_batch ev (lg\<lparr> batch_queue := batch_queue lg @ [e] \<rparr>) st
          \<and> (\<exists>st'. enqueue_log_entry ev lg e st =
                (Inr (), lg\<lparr> batch_queue := drop (nat (batch_size (config lg))) (batch_queue lg @ [e]) \<rparr>, st')
              \<and> sends st' = sends st @ [batch_call lg (take (nat (batch_size (config lg))) (batch_queue lg @ [e]))]))
       \<and> (int (length (batch_queue lg)) + 1 < batch_size (config lg) \<longrightarrow>
            enqueue_log_entry ev lg e st = (Inr (), lg\<lparr> batch_queue := batch_queue lg @ [e] \<rparr>, st))
       \<and> (batch_size (config lg) = 2 \<and> batch_queue lg = [] \<longrightarrow>
            enqueue_log_entry ev lg e st = (Inr (), lg\<lparr> batch_queue := [e] \<rparr>, st)
          \<and> (\<exists>st'. enqueue_log_entry ev (lg\<lparr> batch_queue := [e] \<rparr>) e' st = (Inr (), lg\<lparr> batch_queue := [] \<rparr>, st')
              \<and> sends st' = sends st @ [batch_call lg [e, e']]))"
proof (intro conjI impI)
  assume a: "batch_size (config lg) \<le> int (length (batch_queue lg)) + 1"
  from enqueue_reaches[OF assms a, of ev e st]
  show "enqueue_log_entry ev lg e st = send_batch ev (lg\<lparr> batch_queue := batch_queue lg @ [e] \<rparr>) st"
    and "\<exists>st'. enqueue_log_entry ev lg e st =
                (Inr (), lg\<lparr> batch_queue := drop (nat (batch_size (config lg))) (batch_queue lg @ [e]) \<rparr>, st')
              \<and> sends st' = sends st @ [batch_call lg (take (nat (batch_size (config lg))) (batch_queue lg @ [e]))]"
    by blast+
next
  assume "int (length (batch_queue lg)) + 1 < batch_size (config lg)"
  then show "enqueue_log_entry ev lg e st = (Inr (), lg\<lparr> batch_queue := batch_queue lg @ [e] \<rparr>, st)"
    by (rule enqueue_below)
next
  assume b: "batch_size (config lg) = 2 \<and> batch_queue lg = []"
  then show "enqueue_log_entry ev lg e st = (Inr (), lg\<lparr> batch_queue := [e] \<rparr>, st)"
    using enqueue_below[of lg ev e st] by simp
next
  assume b: "batch_size (config lg) = 2 \<and> batch_queue lg = []"
  let ?lg1 = "lg\<lparr> batch_queue := [e] \<rparr>"
  have pos: "0 < batch_size (config ?lg1)" using b by simp
  have reach: "batch_size (config ?lg1) \<le> int (length (batch_queue ?lg1)) + 1" using b by simp
  from conjunct2[OF enqueue_reaches[OF pos reach, of ev e' st]] b
  show "\<exists>st'. enqueue_log_entry ev ?lg1 e' st = (Inr (), lg\<lparr> batch_queue := [] \<rparr>, st')
              \<and> sends st' = sends st @ [batch_call lg [e, e']]"
    by auto
qed

theorem enqueue_flushes_at_batch_size_witness:
  "0 < batch_size (config (queued_logger 2 []))
   \<and> batch_size (config (queued_logger 2 [])) = 2 \<and> batch_queue (queued_logger 2 []) = []
   \<and> enqueue_log_entry env_second_ok (queued_logger 2 []) (example_entry ''Message 1'') initial_state =
       (Inr (), queued_logger 2 [example_entry ''Message 1''], initial_state)
   \<and> fst (enqueue_log_entry env_second_ok (queued_logger 2 [example_entry ''Message 1''])
         (example_entry ''Message 2'') initial_state) = Inr ()
   \<and> batch_queue (fst (snd (enqueue_log_entry env_second_ok (queued_logger 2 [example_entry ''Message 1''])
         (example_entry ''Message 2'') initial_state))) = []
   \<and> sends (snd (snd (enqueue_log_entry env_second_ok (queued_logger 2 [example_entry ''Message 1''])
         (example_entry ''Message 2'') initial_state))) =
       [(''POST'', ''http://localhost:3030/logs/app/batch'',
         Some (JList [to_dict (example_entry ''Message 1''), to_dict (example_entry ''Message 2'')]))]"
  using enqueue_flushes_at_batch_size[where ev = env_second_ok and st = initial_state
      and lg = "queued_logger 2 []" and e = "example_entry ''Message 1''" and e' = "example_entry ''Message 2''"]
  by (auto simp: fixture_defs)

section \<open>AILogger.log: errors and routing\<close>

lemma send_batch_returns: "fst (send_batch ev lg st) = Inr ()"
  by (simp add: send_batch_def Let_def split: prod.splits sum.splits)

lemma enqueue_returns: "fst (enqueue_log_entry ev lg e st) = Inr ()"
  by (simp add: enqueue_log_entry_def Let_def send_batch_returns)

lemma send_log_entry_returns: "fst (send_log_entry ev lg e st) = Inr ()"
  using send_log_entry_effect[of ev lg e st] by auto

lemma log_empty: "log ev lg level [] data exception st = (Inl (ValueError ''Message cannot be empty''), lg, st)"
  by (simp add: log_def)

lemma log_nonempty:
  assumes "message \<noteq> []"
  shows "log ev lg level message data exception st =
     (if async_enabled (config lg) \<and> 1 < batch_size (config lg)
      then enqueue_log_entry ev lg (built_entry ev lg level message data exception st)
             (st\<lparr> created := Suc (created st) \<rparr>)
      else (fst (send_log_entry ev lg (built_entry ev lg level message data exception st)
                   (st\<lparr> created := Suc (created st) \<rparr>)),
            lg,
            snd (send_log_entry ev lg (built_entry ev lg level message data exception st)
                   (st\<lparr> created := Suc (created st) \<rparr>))))"
  using assms by (simp add: log_def built_entry_def LogEntry_init_def split: prod.splits)

lemma log_returns: "fst (log ev lg level message data exception st) =
    (if message = [] then Inl (ValueError ''Message cannot be empty'') else Inr ())"
  by (simp add: log_empty log_nonempty enqueue_returns send_log_entry_returns)

text \<open>
  Claim C2. A call of \<^verbatim>\<open>log\<close>, or of one of its wrappers \<^verbatim>\<open>debug\<close>,
  \<^verbatim>\<open>info\<close>, \<^verbatim>\<open>warning\<close>, \<^verbatim>\<open>error\<close> and \<^verbatim>\<open>fatal\<close>, raises if and only if
  the message is empty, and then it raises \<^verbatim>\<open>ValueError\<close> (InvalidArgument). For every
  message that is not empty the call returns normally, whatever the network does: a
  delivery that fails after its retries is caught inside the logger.
\<close>

theorem log_raises_iff_message_empty:
  "\<forall>f \<in> {log ev lg level, debug ev lg, info ev lg, warning ev lg, error ev lg, fatal ev lg}.
     ((\<exists>e. fst (f message data exception st) = Inl e) \<longleftrightarrow> message = [])
     \<and> fst (f message data exception st) =
         (if message = [] then Inl (ValueError ''Message cannot be empty'') else Inr ())"
  by (simp add: debug_def info_def warning_def error_def fatal_def log_returns)

theorem log_raises_iff_message_empty_witness:
  "fst (log env_unreachable (new_logger ''app'' (default_config\<lparr> async_enabled := False \<rparr>)) ERROR ''boom''
         None None (new_logger_state ''app'' (default_config\<lparr> async_enabled := False \<rparr>))) = Inr ()
   \<and> fst (info env_unreachable (new_logger ''app'' (default_config\<lparr> async_enabled := False \<rparr>)) []
         None None (new_logger_state ''app'' (default_config\<lparr> async_enabled := False \<rparr>))) =
       Inl (ValueError ''Message cannot be empty'')"
  using log_raises_iff_message_empty[where ev = env_unreachable and level = ERROR and message = "''boom''"
      and data = None and exception = None
      and lg = "new_logger ''app'' (default_config\<lparr> async_enabled := False \<rparr>)"
      and st = "new_logger_state ''app'' (default_config\<lparr> async_enabled := False \<rparr>)"]
    log_raises_iff_message_empty[where ev = env_unreachable and level = ERROR and message = "[]"
      and data = None and exception = None
      and lg = "new_logger ''app'' (default_config\<lparr> async_enabled := False \<rparr>)"
      and st = "new_logger_state ''app'' (default_config\<lparr> async_enabled := False \<rparr>)"]
  by simp

lemma log_immediate:
  assumes "message \<noteq> []" and "\<not> async_enabled (config lg) \<or> batch_size (config lg) \<le> 1"
  shows "\<exists>st'. log ev lg level message data exception st = (Inr (), lg, st')
           \<and> sends st' = sends st @ [entry_call lg (built_entry ev lg level message data exception st)]
           \<and> dicts st' = dicts st"
proof -
  let ?e = "built_entry ev lg level message data exception st"
  let ?st1 = "st\<lparr> created := Suc (created st) \<rparr>"
  from send_log_entry_effect[of ev lg ?e ?st1]
  obtain st' where s: "send_log_entry ev lg ?e ?st1 = (Inr (), st')"
      "sends st' = sends ?st1 @ [entry_call lg ?e]" "dicts st' = dicts ?st1"
    by blast
  have n: "\<not> (async_enabled (config lg) \<and> 1 < batch_size (config lg))" using assms(2) by auto
  have "log ev lg level message data exception st =
      (fst (send_log_entry ev lg ?e ?st1), lg, snd (send_log_entry ev lg ?e ?st1))"
    by (subst log_nonempty[OF assms(1)]) (simp only: n if_False)
  with s show ?thesis by simp
qed

text \<open>
  Claim C5. A call of \<^verbatim>\<open>log\<close> with a message that is not empty builds one entry. In
  synchronous mode, and in asynchronous mode with \<^verbatim>\<open>batch_size \<le> 1\<close>, it hands that entry
  at once to \<^verbatim>\<open>HttpClient.send\<close> as one POST to the single-entry endpoint and leaves
  the logger as it was. In asynchronous mode with \<^verbatim>\<open>batch_size > 1\<close> it enqueues the
  entry instead: below the batch size the entry is appended to the queue and nothing is
  sent, and at the batch size the only call made is the batch POST of the flush.
\<close>

theorem log_routing:
  assumes "message \<noteq> []"
  shows "(\<not> async_enabled (config lg) \<or> batch_size (config lg) \<le> 1 \<longrightarrow>
            (\<exists>st'. log ev lg level message data exception st = (Inr (), lg, st')
               \<and> sends st' = sends st @ [entry_call lg (built_entry ev lg level message data exception st)]))
       \<and> (async_enabled (config lg) \<and> 1 < batch_size (config lg) \<longrightarrow>
            log ev lg level message data exception st =
              enqueue_log_entry ev lg (built_entry ev lg level message data exception st)
                (st\<lparr> created := Suc (created st) \<rparr>)
          \<and> (int (length (batch_queue lg)) + 1 < batch_size (config lg) \<longrightarrow>
                log ev lg level message data exception st =
                  (Inr (),
                   lg\<lparr> batch_queue := batch_queue lg @ [built_entry ev lg level message data exception st] \<rparr>,
                   st\<lparr> created := Suc (created st) \<rparr>))
          \<and> (batch_size (config lg) \<le> int (length (batch_queue lg)) + 1 \<longrightarrow>
                (\<exists>st'. log ev lg level message data exception st =
                   (Inr (),
                    lg\<lparr> batch_queue := drop (nat (batch_size (config lg)))
                         (batch_queue lg @ [built_entry ev lg level message data exception st]) \<rparr>,
                    st')
                 \<and> sends st' = sends st @ [batch_call lg (take (nat (batch_size (config lg)))
                         (batch_queue lg @ [built_entry ev lg level message data exception st]))])))"
proof (intro conjI impI)
  assume "\<not> async_enabled (config lg) \<or> batch_size (config lg) \<le> 1"
  from log_immediate[OF assms this, of ev level data exception st]
  show "\<exists>st'. log ev lg level message data exception st = (Inr (), lg, st')
               \<and> sends st' = sends st @ [entry_call lg (built_entry ev lg level message data exception st)]"
    by blast
next
  assume b: "async_enabled (config lg) \<and> 1 < batch_size (config lg)"
  then show "log ev lg level message data exception st =
              enqueue_log_entry ev lg (built_entry ev lg level message data exception st)
                (st\<lparr> created := Suc (created st) \<rparr>)"
    by (simp add: log_nonempty[OF assms])
next
  assume b: "async_enabled (config lg) \<and> 1 < batch_size (config lg)"
    and c: "int (length (batch_queue lg)) + 1 < batch_size (config lg)"
  from b enqueue_below[OF c]
  show "log ev lg level message data exception st =
          (Inr (),
           lg\<lparr> batch_queue := batch_queue lg @ [built_entry ev lg level message data exception st] \<rparr>,
           st\<lparr> created := Suc (created st) \<rparr>)"
    by (simp add: log_nonempty[OF assms])
next
  assume b: "async_enabled (config lg) \<and> 1 < batch_size (config lg)"
    and c: "batch_size (config lg) \<le> int (length (batch_queue lg)) + 1"
  from b have pos: "0 < batch_size (config lg)" by simp
  from b conjunct2[OF enqueue_reaches[OF pos c, of ev "built_entry ev lg level message data exception st"
      "st\<lparr> created := Suc (created st) \<rparr>"]]
  show "\<exists>st'. log ev lg level message data exception st =
                   (Inr (),
                    lg\<lparr> batch_queue := drop (nat (batch_size (config lg)))
                         (batch_queue lg @ [built_entry ev lg level message data exception st]) \<rparr>,
                    st')
                 \<and> sends st' = sends st @ [batch_call lg (take (nat (batch_size (config lg)))
                         (batch_queue lg @ [built_entry ev lg level message data exception st]))]"
    by (auto simp: log_nonempty[OF assms])
qed

theorem log_routing_witness:
  "''boom'' \<noteq> []
   \<and> \<not> async_enabled (config (new_logger ''app'' (default_config\<lparr> async_enabled := False \<rparr>)))
   \<and> fst (log env_second_ok (new_logger ''app'' (default_config\<lparr> async_enabled := False \<rparr>)) ERROR ''boom''
         None None (new_logger_state ''app'' (default_config\<lparr> async_enabled := False \<rparr>))) = Inr ()
   \<and> sends (snd (snd (log env_second_ok (new_logger ''app'' (default_config\<lparr> async_enabled := False \<rparr>)) ERROR
         ''boom'' None None (new_logger_state ''app'' (default_config\<lparr> async_enabled := False \<rparr>))))) =
       [(''POST'', ''http://localhost:3030/logs/app'',
         Some (JObj [(''id'', JStr ''id''), (''timestamp'', JStr ''now''), (''level'', JStr ''error''),
                     (''message'', JStr ''boom''), (''data'', JObj [])]))]
   \<and> async_enabled (config (new_logger ''app'' default_config))
   \<and> 1 < batch_size (config (new_logger ''app'' default_config))
   \<and> batch_queue (fst (snd (log env_second_ok (new_logger ''app'' default_config) INFO ''Message 1''
         None None (new_logger_state ''app'' default_config)))) =
       [built_entry env_second_ok (new_logger ''app'' default_config) INFO ''Message 1'' None None
          (new_logger_state ''app'' default_config)]
   \<and> sends (snd (snd (log env_second_ok (new_logger ''app'' default_config) INFO ''Message 1''
         None None (new_logger_state ''app'' default_config)))) = []"
proof -
  let ?cs = "default_config\<lparr> async_enabled := False \<rparr>"
  let ?ls = "new_logger ''app'' ?cs"
  let ?ss = "new_logger_state ''app'' ?cs"
  let ?la = "new_logger ''app'' default_config"
  let ?sa = "new_logger_state ''app'' default_config"
  have m: "''boom'' \<noteq> []" "''Message 1'' \<noteq> []" by simp_all
  have sync: "\<not> async_enabled (config ?ls) \<or> batch_size (config ?ls) \<le> 1"
    by (simp add: fixture_defs)
  from log_routing[OF m(1), where lg = ?ls and ev = env_second_ok and level = ERROR and data = None
      and exception = None and st = ?ss] sync
  obtain st' where r1: "log env_second_ok ?ls ERROR ''boom'' None None ?ss = (Inr (), ?ls, st')"
    "sends st' = sends ?ss @ [entry_call ?ls (built_entry env_second_ok ?ls ERROR ''boom'' None None ?ss)]"
    by blast
  have batching: "async_enabled (config ?la) \<and> 1 < batch_size (config ?la)"
      "int (length (batch_queue ?la)) + 1 < batch_size (config ?la)"
    by (simp_all add: fixture_defs)
  from log_routing[OF m(2), where lg = ?la and ev = env_second_ok and level = INFO and data = None
      and exception = None and st = ?sa] batching
  have r2: "log env_second_ok ?la INFO ''Message 1'' None None ?sa =
      (Inr (), ?la\<lparr> batch_queue := batch_queue ?la @
           [built_entry env_second_ok ?la INFO ''Message 1'' None None ?sa] \<rparr>,
       ?sa\<lparr> created := Suc (created ?sa) \<rparr>)"
    by blast
  have e: "entry_call ?ls (built_entry env_second_ok ?ls ERROR ''boom'' None None ?ss) =
      (''POST'', ''http://localhost:3030/logs/app'',
         Some (JObj [(''id'', JStr ''id''), (''timestamp'', JStr ''now''), (''level'', JStr ''error''),
                     (''message'', JStr ''boom''), (''data'', JObj [])]))"
    by (simp add: fixture_defs built_entry_def merged_data_def to_dict_def)
  have s0: "sends ?ss = []" "sends ?sa = []" "batch_queue ?la = []"
    by (simp_all add: fixture_defs)
  have ns: "\<not> async_enabled (config ?ls)"
    by (simp add: fixture_defs)
  show ?thesis
    unfolding r1 r2 using r1(2) e s0 ns batching by simp
qed

section \<open>The data of an entry: context merged under the caller's data\<close>

lemma map_of_dict_set: "map_of (dict_set k v d) = (map_of d)(k \<mapsto> v)"
  by (induction d) (auto simp: fun_eq_iff)

lemma dict_set_new: "k \<notin> fst ` set d \<Longrightarrow> dict_set k v d = d @ [(k, v)]"
  by (induction d) auto

lemma dict_update_Nil [simp]: "dict_update d [] = d"
  by (simp add: dict_update_def)

lemma dict_update_Cons [simp]: "dict_update d ((k, v) # other) = dict_update (dict_set k v d) other"
  by (simp add: dict_update_def)

lemma map_of_dict_update:
  "distinct (map fst other) \<Longrightarrow> map_of (dict_update d other) = map_of d ++ map_of other"
proof (induction other arbitrary: d)
  case Nil
  show ?case by simp
next
  case (Cons p other)
  obtain k v where p: "p = (k, v)" by (cases p)
  from Cons.prems p have fresh: "k \<notin> dom (map_of other)" and dist: "distinct (map fst other)"
    by (auto simp: dom_map_of_conv_image_fst)
  have "map_of (dict_update d (p # other)) = map_of (dict_set k v d) ++ map_of other"
    using Cons.IH[OF dist, of "dict_set k v d"] p by simp
  also have "\<dots> = (map_of d)(k \<mapsto> v) ++ map_of other"
    by (simp only: map_of_dict_set)
  also have "\<dots> = map_of d ++ (map_of other)(k \<mapsto> v)"
    using fresh by (auto simp: fun_eq_iff map_add_def split: option.splits)
  also have "\<dots> = map_of d ++ map_of (p # other)"
    using p by simp
  finally show ?case .
qed

lemma dict_update_fresh:
  "distinct (map fst (d @ other)) \<Longrightarrow> dict_update d other = d @ other"
proof (induction other arbitrary: d)
  case Nil
  show ?case by simp
next
  case (Cons p other)
  obtain k v where p: "p = (k, v)" by (cases p)
  from Cons.prems p have "k \<notin> fst ` set d" by auto
  then have s: "dict_set k v d = d @ [(k, v)]" by (rule dict_set_new)
  from Cons.prems p have "distinct (map fst ((d @ [(k, v)]) @ other))" by simp
  from Cons.IH[OF this] s p show ?case by simp
qed

lemma merged_data_map:
  assumes "wf_dict (dicts st (context_ref lg))"
    and "case data of None \<Rightarrow> True | Some d \<Rightarrow> wf_dict d"
  shows "map_of (merged_data lg data st) =
           map_of (dicts st (context_ref lg)) ++ (case data of None \<Rightarrow> Map.empty | Some d \<Rightarrow> map_of d)"
  using assms
  by (cases data) (auto simp: merged_data_def wf_dict_def map_of_dict_update)

lemma merged_data_None:
  assumes "wf_dict (dicts st (context_ref lg))"
  shows "merged_data lg None st = dicts st (context_ref lg)"
  using assms dict_update_fresh[of "[]" "dicts st (context_ref lg)"]
  by (simp add: merged_data_def wf_dict_def)

lemma le_data_built_entry:
  "le_data (built_entry ev lg level message data exception st) = merged_data lg data st"
  by (simp add: built_entry_def LogEntry_init_def)

text \<open>
  Claim C8. The data of the entry that \<^verbatim>\<open>log\<close> builds, and then sends or enqueues,
  is the instance context merged under the caller's data, the caller's keys winning: as a
  mapping it is the context overridden by the data. Without caller data it is the
  instance context, with neither it is empty, and the context \<^verbatim>\<open>{"a": 1}\<close> with the
  data \<^verbatim>\<open>{"a": 2, "b": 3}\<close> gives \<^verbatim>\<open>{"a": 2, "b": 3}\<close>. The dictionaries are
  well formed (no key twice), as every Python dictionary is.
\<close>

theorem log_merges_context_under_data:
  assumes "wf_dict (dicts st (context_ref lg))"
    and "case data of None \<Rightarrow> True | Some d \<Rightarrow> wf_dict d"
  shows "map_of (le_data (built_entry ev lg level message data exception st)) =
           map_of (dicts st (context_ref lg)) ++ (case data of None \<Rightarrow> Map.empty | Some d \<Rightarrow> map_of d)
       \<and> (data = None \<longrightarrow>
            le_data (built_entry ev lg level message data exception st) = dicts st (context_ref lg))
       \<and> (data = None \<and> dicts st (context_ref lg) = [] \<longrightarrow>
            le_data (built_entry ev lg level message data exception st) = [])
       \<and> (dicts st (context_ref lg) = [(''a'', JInt 1)] \<and> data = Some [(''a'', JInt 2), (''b'', JInt 3)] \<longrightarrow>
            le_data (built_entry ev lg level message data exception st) = [(''a'', JInt 2), (''b'', JInt 3)])
       \<and> (message \<noteq> [] \<longrightarrow>
            log ev lg level message data exception st =
              (if async_enabled (config lg) \<and> 1 < batch_size (config lg)
               then enqueue_log_entry ev lg (built_entry ev lg level message data exception st)
                      (st\<lparr> created := Suc (created st) \<rparr>)
               else (Inr (), lg,
                     snd (send_log_entry ev lg (built_entry ev lg level message data exception st)
                            (st\<lparr> created := Suc (created st) \<rparr>)))))"
proof (intro conjI impI)
  show "map_of (le_data (built_entry ev lg level message data exception st)) =
           map_of (dicts st (context_ref lg)) ++ (case data of None \<Rightarrow> Map.empty | Some d \<Rightarrow> map_of d)"
    using merged_data_map[OF assms] by (simp add: le_data_built_entry)
next
  assume "data = None"
  then show "le_data (built_entry ev lg level message data exception st) = dicts st (context_ref lg)"
    using merged_data_None[OF assms(1)] by (simp add: le_data_built_entry)
next
  assume "data = None \<and> dicts st (context_ref lg) = []"
  then show "le_data (built_entry ev lg level message data exception st) = []"
    by (simp add: le_data_built_entry merged_data_def)
next
  assume "dicts st (context_ref lg) = [(''a'', JInt 1)] \<and> data = Some [(''a'', JInt 2), (''b'', JInt 3)]"
  then show "le_data (built_entry ev lg level message data exception st) = [(''a'', JInt 2), (''b'', JInt 3)]"
    by (simp add: le_data_built_entry merged_data_def)
next
  assume "message \<noteq> []"
  then show "log ev lg level message data exception st =
              (if async_enabled (config lg) \<and> 1 < batch_size (config lg)
               then enqueue_log_entry ev lg (built_entry ev lg level message data exception st)
                      (st\<lparr> created := Suc (created st) \<rparr>)
               else (Inr (), lg,
                     snd (send_log_entry ev lg (built_entry ev lg level message data exception st)
                            (st\<lparr> created := Suc (created st) \<rparr>))))"
    by (simp add: log_nonempty send_log_entry_returns)
qed

theorem log_merges_context_under_data_witness:
  "wf_dict (dicts (dict_mutate 1 [(''a'', JInt 1)] (new_logger_state ''app'' default_config))
      (context_ref (new_logger ''app'' default_config)))
   \<and> wf_dict [(''a'', JInt 2), (''b'', JInt 3)]
   \<and> dicts (dict_mutate 1 [(''a'', JInt 1)] (new_logger_state ''app'' default_config))
        (context_ref (new_logger ''app'' default_config)) = [(''a'', JInt 1)]
   \<and> le_data (built_entry env_second_ok (new_logger ''app'' default_config) INFO ''hello''
        (Some [(''a'', JInt 2), (''b'', JInt 3)]) None
        (dict_mutate 1 [(''a'', JInt 1)] (new_logger_state ''app'' default_config))) =
      [(''a'', JInt 2), (''b'', JInt 3)]"
  using log_merges_context_under_data[where ev = env_second_ok and level = INFO and message = "''hello''"
      and data = "Some [(''a'', JInt 2), (''b'', JInt 3)]" and exception = None
      and lg = "new_logger ''app'' default_config"
      and st = "dict_mutate 1 [(''a'', JInt 1)] (new_logger_state ''app'' default_config)"]
  by (simp add: fixture_defs dict_mutate_def wf_dict_def)

section \<open>Contexts are copied; the registry returns one logger per name\<close>

lemma set_context_None:
  "set_context lg None st = (Inl (ValueError ''Context cannot be None''), lg, st)"
  by (simp add: set_context_def)

lemma set_context_Some:
  "set_context lg (Some r) st =
     (Inr (), lg\<lparr> context_ref := next_dict st \<rparr>,
      st\<lparr> dicts := (dicts st)(next_dict st := dicts st r), next_dict := Suc (next_dict st) \<rparr>)"
  by (simp add: set_context_def dict_copy_def)

text \<open>
  Claim C9. \<^verbatim>\<open>set_context\<close> raises if and only if its argument is \<^verbatim>\<open>None\<close>, and then
  it raises \<^verbatim>\<open>ValueError\<close> (InvalidArgument) and changes nothing. Given a live dictionary
  object \<open>r\<close> it returns normally and the logger's context becomes a new object with the
  contents of \<open>r\<close>, so whatever the caller later does to \<open>r\<close> in place, the logger's
  stored context keeps the contents \<open>r\<close> had at the call.
\<close>

theorem set_context_copies:
  "((\<exists>e. fst (set_context lg ctx st) = Inl e) \<longleftrightarrow> ctx = None)
   \<and> (ctx = None \<longrightarrow> set_context lg ctx st = (Inl (ValueError ''Context cannot be None''), lg, st))
   \<and> (\<forall>r. ctx = Some r \<and> r < next_dict st \<longrightarrow>
         (\<exists>lg' st'. set_context lg ctx st = (Inr (), lg', st')
            \<and> context_ref lg' \<noteq> r
            \<and> dicts st' (context_ref lg') = dicts st r
            \<and> (\<forall>d. dicts (dict_mutate r d st') (context_ref lg') = dicts st r)))"
proof (cases ctx)
  case None
  then show ?thesis by (simp add: set_context_None)
next
  case (Some r)
  then show ?thesis by (simp add: set_context_Some dict_mutate_def)
qed

theorem set_context_copies_witness:
  "0 < next_dict (dict_mutate 0 [(''app'', JStr ''test'')] (new_logger_state ''app'' default_config))
   \<and> fst (set_context (new_logger ''app'' default_config) None
         (dict_mutate 0 [(''app'', JStr ''test'')] (new_logger_state ''app'' default_config))) =
       Inl (ValueError ''Context cannot be None'')
   \<and> fst (set_context (new_logger ''app'' default_config) (Some 0)
         (dict_mutate 0 [(''app'', JStr ''test'')] (new_logger_state ''app'' default_config))) = Inr ()
   \<and> dicts (dict_mutate 0 [(''app'', JStr ''changed'')]
         (snd (snd (set_context (new_logger ''app'' default_config) (Some 0)
            (dict_mutate 0 [(''app'', JStr ''test'')] (new_logger_state ''app'' default_config))))))
        (context_ref (fst (snd (set_context (new_logger ''app'' default_config) (Some 0)
            (dict_mutate 0 [(''app'', JStr ''test'')] (new_logger_state ''app'' default_config)))))) =
       [(''app'', JStr ''test'')]"
proof -
  let ?lg = "new_logger ''app'' default_config"
  let ?st = "dict_mutate 0 [(''app'', JStr ''test'')] (new_logger_state ''app'' default_config)"
  have live: "0 < next_dict ?st" and content: "dicts ?st 0 = [(''app'', JStr ''test'')]"
    by (simp_all add: fixture_defs dict_mutate_def)
  from set_context_copies[of ?lg "Some 0" ?st] live
  obtain lg' st' where r: "set_context ?lg (Some 0) ?st = (Inr (), lg', st')"
      "\<forall>d. dicts (dict_mutate 0 d st') (context_ref lg') = dicts ?st 0"
    by auto
  from set_context_copies[of ?lg None ?st]
  have n: "set_context ?lg None ?st = (Inl (ValueError ''Context cannot be None''), ?lg, ?st)"
    by simp
  show ?thesis unfolding r(1) n using live r(2) content by simp
qed

lemma get_logger_empty:
  "get_logger cls [] st = (Inl (ValueError ''Log name cannot be empty''), cls, st)"
  by (simp add: get_logger_def)

lemma get_logger_known:
  "name \<noteq> [] \<Longrightarrow> map_of (cls_loggers cls) name = Some a \<Longrightarrow> get_logger cls name st = (Inr a, cls, st)"
  by (simp add: get_logger_def)

lemma get_logger_new:
  assumes "name \<noteq> []" and "map_of (cls_loggers cls) name = None"
  shows "\<exists>cls1 st1 lg. get_logger cls name st = (Inr (next_logger cls), cls1, st1)
           \<and> map_of (cls_loggers cls1) name = Some (next_logger cls)
           \<and> logger_objs cls1 (next_logger cls) = Some lg
           \<and> log_name lg = name \<and> config lg = cls_config cls
           \<and> (cls_global_context cls < next_dict st \<longrightarrow>
                 dicts st1 (context_ref lg) = dicts st (cls_global_context cls))"
  using assms
  by (auto simp: get_logger_def AILogger_init_def dict_new_def set_context_Some start_batch_timer_def
        map_of_dict_set Let_def)

text \<open>
  Claim C10. \<^verbatim>\<open>get_logger\<close> with an empty name raises \<^verbatim>\<open>ValueError\<close>
  (InvalidArgument) and changes nothing. With a name that is not empty it returns a logger,
  and a second call with the same name returns the same object and leaves the registry and
  the world as the first call left them. When the first call creates the logger while the
  global context is not empty, the context of the new logger has the contents of the global
  context.
\<close>

theorem get_logger_same_instance:
  "get_logger cls [] st = (Inl (ValueError ''Log name cannot be empty''), cls, st)
   \<and> (name \<noteq> [] \<longrightarrow>
        (\<exists>a cls1 st1. get_logger cls name st = (Inr a, cls1, st1)
           \<and> get_logger cls1 name st1 = (Inr a, cls1, st1)
           \<and> (map_of (cls_loggers cls) name = None \<and> cls_global_context cls < next_dict st
                \<and> dicts st (cls_global_context cls) \<noteq> [] \<longrightarrow>
                (\<exists>lg. logger_objs cls1 a = Some lg
                   \<and> dicts st1 (context_ref lg) = dicts st (cls_global_context cls)))))"
proof (intro conjI impI)
  show "get_logger cls [] st = (Inl (ValueError ''Log name cannot be empty''), cls, st)"
    by (rule get_logger_empty)
next
  assume ne: "name \<noteq> []"
  show "\<exists>a cls1 st1. get_logger cls name st = (Inr a, cls1, st1)
           \<and> get_logger cls1 name st1 = (Inr a, cls1, st1)
           \<and> (map_of (cls_loggers cls) name = None \<and> cls_global_context cls < next_dict st
                \<and> dicts st (cls_global_context cls) \<noteq> [] \<longrightarrow>
                (\<exists>lg. logger_objs cls1 a = Some lg
                   \<and> dicts st1 (context_ref lg) = dicts st (cls_global_context cls)))"
  proof (cases "map_of (cls_loggers cls) name")
    case (Some a)
    from get_logger_known[OF ne Some] Some show ?thesis by simp
  next
    case None
    from get_logger_new[OF ne None, of st]
    obtain cls1 st1 lg where r: "get_logger cls name st = (Inr (next_logger cls), cls1, st1)"
        "map_of (cls_loggers cls1) name = Some (next_logger cls)"
        "logger_objs cls1 (next_logger cls) = Some lg"
        "cls_global_context cls < next_dict st \<longrightarrow>
           dicts st1 (context_ref lg) = dicts st (cls_global_context cls)"
      by blast
    from get_logger_known[OF ne r(2), of st1] r show ?thesis by auto
  qed
qed

theorem get_logger_same_instance_witness:
  "''svc'' \<noteq> []
   \<and> map_of (cls_loggers initial_NeuralLog) ''svc'' = None
   \<and> cls_global_context initial_NeuralLog < next_dict (dict_mutate 0 [(''app'', JStr ''test'')] initial_state)
   \<and> dicts (dict_mutate 0 [(''app'', JStr ''test'')] initial_state) (cls_global_context initial_NeuralLog) \<noteq> []
   \<and> fst (get_logger initial_NeuralLog ''svc'' (dict_mutate 0 [(''app'', JStr ''test'')] initial_state)) = Inr 0
   \<and> get_logger
        (fst (snd (get_logger initial_NeuralLog ''svc'' (dict_mutate 0 [(''app'', JStr ''test'')] initial_state))))
        ''svc''
        (snd (snd (get_logger initial_NeuralLog ''svc'' (dict_mutate 0 [(''app'', JStr ''test'')] initial_state)))) =
      get_logger initial_NeuralLog ''svc'' (dict_mutate 0 [(''app'', JStr ''test'')] initial_state)
   \<and> map_option (\<lambda>lg. dicts
          (snd (snd (get_logger initial_NeuralLog ''svc'' (dict_mutate 0 [(''app'', JStr ''test'')] initial_state))))
          (context_ref lg))
        (logger_objs
          (fst (snd (get_logger initial_NeuralLog ''svc'' (dict_mutate 0 [(''app'', JStr ''test'')] initial_state))))
          0) =
      Some [(''app'', JStr ''test'')]"
proof -
  let ?st = "dict_mutate 0 [(''app'', JStr ''test'')] initial_state"
  have h: "''svc'' \<noteq> []" "map_of (cls_loggers initial_NeuralLog) ''svc'' = None"
      "cls_global_context initial_NeuralLog < next_dict ?st"
      "dicts ?st (cls_global_context initial_NeuralLog) = [(''app'', JStr ''test'')]"
      "next_logger initial_NeuralLog = 0"
    by (simp_all add: initial_NeuralLog_def initial_state_def dict_mutate_def)
  from get_logger_same_instance[of initial_NeuralLog ?st "''svc''"] h(1-4)
  obtain a cls1 st1 lg where r: "get_logger initial_NeuralLog ''svc'' ?st = (Inr a, cls1, st1)"
      "get_logger cls1 ''svc'' st1 = (Inr a, cls1, st1)"
      "logger_objs cls1 a = Some lg"
      "dicts st1 (context_ref lg) = dicts ?st (cls_global_context initial_NeuralLog)"
    by auto
  from get_logger_new[OF h(1,2), of ?st] r(1) h(5) have a: "a = 0" by auto
  show ?thesis unfolding r(1) using h r a by simp
qed

section \<open>The queue holds entries only when batching is active\<close>

text \<open>
  A new logger has an empty queue, and every operation keeps the configuration and the
  property that the queue is empty unless the mode is asynchronous with
  \<^verbatim>\<open>batch_size > 1\<close>. So the flush never meets a queue that is not empty together with
  a batch size below 2.
\<close>

lemma send_batch_config: "config (fst (snd (send_batch ev lg st))) = config lg"
  by (simp add: send_batch_def Let_def split: prod.splits sum.splits)

lemma enqueue_config: "config (fst (snd (enqueue_log_entry ev lg e st))) = config lg"
  by (simp add: enqueue_log_entry_def Let_def send_batch_config)

lemma AILogger_init_queue: "batch_queue (fst (AILogger_init name cfg client st)) = []"
  by (simp add: AILogger_init_def dict_new_def start_batch_timer_def Let_def)

lemma log_keeps_queue_discipline:
  assumes "batch_queue lg = [] \<or> (async_enabled (config lg) \<and> 1 < batch_size (config lg))"
  shows "config (fst (snd (log ev lg level message data exception st))) = config lg
       \<and> (batch_queue (fst (snd (log ev lg level message data exception st))) = []
            \<or> (async_enabled (config lg) \<and> 1 < batch_size (config lg)))"
proof (cases "message = []")
  case True
  with assms show ?thesis by (simp add: log_empty)
next
  case False
  with assms show ?thesis by (auto simp: log_nonempty enqueue_config)
qed

lemma flush_keeps_queue_discipline:
  assumes "batch_queue lg = [] \<or> (async_enabled (config lg) \<and> 1 < batch_size (config lg))"
  shows "config (fst (snd (flush ev lg st))) = config lg
       \<and> (batch_queue (fst (snd (flush ev lg st))) = []
            \<or> (async_enabled (config lg) \<and> 1 < batch_size (config lg)))"
  using assms by (auto simp: flush_def send_batch_config)

lemma timer_keeps_queue_discipline:
  assumes "batch_queue lg = [] \<or> (async_enabled (config lg) \<and> 1 < batch_size (config lg))"
  shows "config (fst (snd (batch_timer_callback ev lg st))) = config lg
       \<and> (batch_queue (fst (snd (batch_timer_callback ev lg st))) = []
            \<or> (async_enabled (config lg) \<and> 1 < batch_size (config lg)))"
proof (cases "batch_queue lg = []")
  case True
  then show ?thesis
    by (simp add: batch_timer_callback_def send_batch_empty start_batch_timer_def)
next
  case False
  with assms have b: "async_enabled (config lg) \<and> 1 < batch_size (config lg)" by simp
  obtain r lg1 st1 where s: "send_batch ev lg st = (r, lg1, st1)"
    by (cases "send_batch ev lg st")
  with send_batch_config[of ev lg st] have "config lg1 = config lg" by simp
  with s b show ?thesis by (simp add: batch_timer_callback_def start_batch_timer_def)
qed

lemma set_context_keeps_queue:
  "config (fst (snd (set_context lg ctx st))) = config lg
   \<and> batch_queue (fst (snd (set_context lg ctx st))) = batch_queue lg"
  by (cases ctx) (simp_all add: set_context_None set_context_Some)

end
